theory Spec2Isabelle
  imports Main
begin

section \<open>Shared vocabulary\<close>

text \<open>
  A JavaScript \<open>Date\<close> is modelled by its millisecond value. A column that may be
  \<open>null\<close> is an \<open>option\<close>. Every \<open>throw\<close> and every rejected promise of
  the source is a value of type \<open>error\<close>, returned on the left of a sum.
\<close>

type_synonym time = int

datatype error =
    TypeError
  | Error string
  | UniqueConstraintError

text \<open>
  All four models are declared with \<open>timestamps: true\<close> and carry a nullable
  \<open>syncedAt\<close> column.
\<close>

record timestamps =
  syncedAt :: "time option"
  updatedAt :: time

text \<open>
  \<open>isSynced\<close> is written identically in Audio, Video, Recording and Transcription:
  \<open>Boolean(this.syncedAt) && this.syncedAt >= this.updatedAt\<close>. A \<open>Date\<close> object is
  always truthy, so the first conjunct only tests for \<open>null\<close>.
\<close>

definition isSynced :: "'a timestamps_scheme \<Rightarrow> bool" where
  "isSynced r = (case syncedAt r of None \<Rightarrow> False | Some s \<Rightarrow> s \<ge> updatedAt r)"

text \<open>
  The instance method \<open>update\<close> of the persistence layer assigns the given attributes to
  the instance and, the table having timestamps, stamps \<open>updatedAt\<close> with the time of the
  call.
\<close>

definition update :: "time \<Rightarrow> ('a timestamps_scheme \<Rightarrow> 'a timestamps_scheme) \<Rightarrow>
    'a timestamps_scheme \<Rightarrow> 'a timestamps_scheme" where
  "update now f r = (f r)\<lparr>updatedAt := now\<rparr>"

section \<open>Settings\<close>

text \<open>
  \<open>settings.userDataPath()\<close> is the library path joined with the string form of the
  setting \<open>user.id\<close>; \<open>userId\<close> below is that string form.
\<close>

record settings =
  libraryPath :: string
  userId :: string

text \<open>\<open>path.join\<close> on two segments, without normalisation.\<close>

definition join :: "string \<Rightarrow> string \<Rightarrow> string" where
  "join a b = a @ ''/'' @ b"

definition userDataPath :: "'a settings_scheme \<Rightarrow> string" where
  "userDataPath env = join (libraryPath env) (userId env)"

text \<open>
  \<open>path.extname\<close>: the text from the last dot of the last path segment on, empty when
  that segment has no dot or only a leading one.
\<close>

definition basename :: "string \<Rightarrow> string" where
  "basename p = rev (takeWhile (\<lambda>c. c \<noteq> CHR ''/'') (rev p))"

definition path_extname :: "string \<Rightarrow> string" where
  "path_extname p =
     (let b = basename p;
          suffix = rev (takeWhile (\<lambda>c. c \<noteq> CHR ''.'') (rev b))
      in if CHR ''.'' \<notin> set b then []
         else if length suffix + 1 = length b then []
         else CHR ''.'' # suffix)"

section \<open>Media assets\<close>

text \<open>
  \<open>class Audio\<close> and \<open>class Video\<close> have the same columns and the same methods, up to
  the table and the library directory they use; one record serves both, with the kind as an
  argument of the operations. Of the \<open>metadata\<close> object only \<open>extname\<close> is read by the
  code below; the descriptive columns (name, description, cover) play no part in it.
\<close>

datatype kind = Audio | Video

record asset = timestamps +
  id' :: string
  source :: "string option"
  md5 :: string
  metadata_extname :: string
  recordingsCount :: int
  recordingsDuration :: int
  uploadedAt :: "time option"

definition modelName :: "kind \<Rightarrow> string" where
  "modelName k = (case k of Audio \<Rightarrow> ''Audio'' | Video \<Rightarrow> ''Video'')"

definition dirName :: "kind \<Rightarrow> string" where
  "dirName k = (case k of Audio \<Rightarrow> ''audios'' | Video \<Rightarrow> ''videos'')"

definition other :: "kind \<Rightarrow> kind" where
  "other k = (case k of Audio \<Rightarrow> Video | Video \<Rightarrow> Audio)"

definition extname :: "asset \<Rightarrow> string" where
  "extname a =
     (if metadata_extname a \<noteq> [] then metadata_extname a
      else (case source a of None \<Rightarrow> [] | Some s \<Rightarrow> path_extname s))"

definition filePath :: "'a settings_scheme \<Rightarrow> kind \<Rightarrow> asset \<Rightarrow> string" where
  "filePath env k a = join (join (userDataPath env) (dirName k)) (md5 a @ extname a)"

definition isUploaded :: "asset \<Rightarrow> bool" where
  "isUploaded a = (uploadedAt a \<noteq> None)"

subsection \<open>Upload\<close>

text \<open>
  \<open>storage.put\<close> either rejects (a transport failure) or resolves to a result whose
  \<open>data\<close> carries the flag \<open>success\<close>; \<open>dataText\<close> is the string form of \<open>data\<close>, which
  becomes the message of the error thrown on a reported failure.
\<close>

record put_result =
  success :: bool
  dataText :: string

datatype storage_call = Put string string

definition upload :: "(string \<Rightarrow> string \<Rightarrow> error + put_result) \<Rightarrow> 'a settings_scheme \<Rightarrow> kind \<Rightarrow>
    time \<Rightarrow> bool \<Rightarrow> asset \<Rightarrow> (error + unit) \<times> asset \<times> storage_call list" where
  "upload put env k now force a =
     (if isUploaded a \<and> \<not> force then (Inr (), a, [])
      else
        (case put (md5 a) (filePath env k a) of
           Inl err \<Rightarrow> (Inl err, a, [Put (md5 a) (filePath env k a)])
         | Inr res \<Rightarrow>
            if success res
            then (Inr (), update now (\<lambda>r. r\<lparr>uploadedAt := Some now\<rparr>) a,
                  [Put (md5 a) (filePath env k a)])
            else (Inl (Error (dataText res)), a, [Put (md5 a) (filePath env k a)])))"

section \<open>The polymorphic target reference\<close>

text \<open>
  Recording and Transcription both point at their asset through \<open>targetId\<close> and the tag
  \<open>targetType\<close>, a plain string column.
\<close>

record target_ref = timestamps +
  targetId :: string
  targetType :: string

section \<open>Recordings and the relational store\<close>

record recording = target_ref +
  duration :: int

record db =
  audios :: "asset list"
  videos :: "asset list"
  recordings :: "recording list"

definition table :: "kind \<Rightarrow> 'a db_scheme \<Rightarrow> asset list" where
  "table k d = (case k of Audio \<Rightarrow> audios d | Video \<Rightarrow> videos d)"

definition table_update :: "kind \<Rightarrow> (asset list \<Rightarrow> asset list) \<Rightarrow> 'a db_scheme \<Rightarrow> 'a db_scheme" where
  "table_update k f d =
     (case k of Audio \<Rightarrow> d\<lparr>audios := f (audios d)\<rparr> | Video \<Rightarrow> d\<lparr>videos := f (videos d)\<rparr>)"

definition findByPk :: "asset list \<Rightarrow> string \<Rightarrow> asset option" where
  "findByPk rows i = find (\<lambda>a. id' a = i) rows"

text \<open>
  \<open>instance.increment(column, {by})\<close> adds to the column of the row with the
  instance's primary key.
\<close>

definition bump :: "string \<Rightarrow> int \<Rightarrow> int \<Rightarrow> asset list \<Rightarrow> asset list" where
  "bump i n dur rows =
     map (\<lambda>a. if id' a = i
               then a\<lparr>recordingsCount := recordingsCount a + n,
                      recordingsDuration := recordingsDuration a + dur\<rparr>
               else a) rows"

text \<open>
  The hooks \<open>increaseResourceCache\<close> (after create) and \<open>decreaseResourceCache\<close> (after
  destroy) of Recording. Both look at \<open>targetType === "Audio"\<close> only. When the audio row is
  missing, the callback fails on \<open>null\<close> and the store is left as it is.
\<close>

definition increaseResourceCache :: "recording \<Rightarrow> 'a db_scheme \<Rightarrow> 'a db_scheme" where
  "increaseResourceCache r d =
     (if targetType r \<noteq> ''Audio'' then d
      else
        (case findByPk (audios d) (targetId r) of
           None \<Rightarrow> d
         | Some a \<Rightarrow> d\<lparr>audios := bump (id' a) 1 (duration r) (audios d)\<rparr>))"

definition decreaseResourceCache :: "recording \<Rightarrow> 'a db_scheme \<Rightarrow> 'a db_scheme" where
  "decreaseResourceCache r d =
     (if targetType r = ''Audio'' then
        (case findByPk (audios d) (targetId r) of
           None \<Rightarrow> d
         | Some a \<Rightarrow> d\<lparr>audios := bump (id' a) (- 1) (- duration r) (audios d)\<rparr>)
      else d)"

text \<open>Creating and destroying a Recording row, with the hooks that follow.\<close>

definition createRecording :: "recording \<Rightarrow> 'a db_scheme \<Rightarrow> 'a db_scheme" where
  "createRecording r d = increaseResourceCache r (d\<lparr>recordings := recordings d @ [r]\<rparr>)"

definition destroyRecording :: "recording \<Rightarrow> 'a db_scheme \<Rightarrow> 'a db_scheme" where
  "destroyRecording r d = decreaseResourceCache r (d\<lparr>recordings := remove1 r (recordings d)\<rparr>)"

text \<open>The live Recording rows of one asset, as the \<open>recordings\<close> association selects them.\<close>

definition liveRecordings :: "kind \<Rightarrow> string \<Rightarrow> 'a db_scheme \<Rightarrow> recording list" where
  "liveRecordings k i d =
     filter (\<lambda>r. targetId r = i \<and> targetType r = modelName k) (recordings d)"

section \<open>Ingestion of a local file\<close>

record library = db +
  files :: "string \<rightharpoonup> string"

text \<open>
  What ingestion is given from outside: the settings, the two format lists of
  \<open>@/constants\<close>, the content hash, the namespace UUID function, the value that the
  \<open>UUIDV4\<close> default of the primary key draws for the row being built, whether the copy
  into the library fails, and the clock.
\<close>

record ingest_env = settings +
  audioFormats :: "string list"
  videoFormats :: "string list"
  hashFile :: "string \<Rightarrow> string"
  uuidv5 :: "string \<Rightarrow> string \<Rightarrow> string"
  uuidv4 :: string
  copyFails :: bool
  clock :: time

definition formats :: "ingest_env \<Rightarrow> kind \<Rightarrow> string list" where
  "formats env k = (case k of Audio \<Rightarrow> audioFormats env | Video \<Rightarrow> videoFormats env)"

text \<open>The constant \<open>uuidv5.URL\<close>, the namespace for URLs.\<close>

definition uuid_URL :: string where
  "uuid_URL = ''6ba7b811-9dad-11d1-80b4-00c04fd430c8''"

text \<open>The message keys passed to the translation function.\<close>

definition msg :: "kind \<Rightarrow> string \<Rightarrow> string" where
  "msg k s = ''models.'' @ (case k of Audio \<Rightarrow> ''audio'' | Video \<Rightarrow> ''video'') @ ''.'' @ s"

text \<open>
  The hook \<open>setupDefaultAttributes\<close>, run before every create: the probe only adds
  descriptive metadata and its failure is logged; then the hook assigns the derived id to
  \<open>id\<close>. The column is the primary key, and the persistence layer ignores an assignment
  to a primary key that already holds a value.
\<close>

definition setupDefaultAttributes :: "ingest_env \<Rightarrow> asset \<Rightarrow> asset" where
  "setupDefaultAttributes env a =
     (if id' a \<noteq> [] then a
      else a\<lparr>id' := uuidv5 env (userId env @ ''/'' @ md5 a) uuid_URL\<rparr>)"

text \<open>
  \<open>record.save()\<close> of a new row: the hook, then the insert, which the primary key and the
  unique column \<open>md5\<close> can refuse.
\<close>

definition save :: "ingest_env \<Rightarrow> kind \<Rightarrow> asset \<Rightarrow> 'a db_scheme \<Rightarrow> error + (asset \<times> 'a db_scheme)" where
  "save env k a d =
     (let a' = setupDefaultAttributes env a in
      if md5 a' \<in> set (map md5 (table k d)) \<or> id' a' \<in> set (map id' (table k d))
      then Inl UniqueConstraintError
      else Inr (a', table_update k (\<lambda>rows. rows @ [a']) d))"

text \<open>
  The part of \<open>buildFromLocalFile\<close> after the format check: hash, copy into the library,
  build the row, save it, and on a failed save remove the copied file. \<open>build\<close> fills
  the primary key with its \<open>UUIDV4\<close> default, since the caller gives no id.
\<close>

definition ingest :: "ingest_env \<Rightarrow> kind \<Rightarrow> string \<Rightarrow> string \<Rightarrow> string option \<Rightarrow> library \<Rightarrow>
    (error + asset) \<times> library" where
  "ingest env k p bytes src lib =
     (let ext = path_extname p;
          h = hashFile env bytes;
          destDir = join (userDataPath env) (dirName k);
          destFile = join destDir (h @ ext)
      in if copyFails env \<or> p = destFile then (Inl (Error (msg k ''failedToCopyFile'')), lib)
         else
           (let lib1 = lib\<lparr>files := (files lib)(destFile \<mapsto> bytes)\<rparr>;
                row = \<lparr>syncedAt = None, updatedAt = clock env, id' = uuidv4 env,
                       source = src,
                       md5 = h, metadata_extname = ext, recordingsCount = 0,
                       recordingsDuration = 0, uploadedAt = None\<rparr>
            in case save env k row lib1 of
                 Inl err \<Rightarrow> (Inl err, lib1\<lparr>files := (files lib1)(destFile := None)\<rparr>)
               | Inr (a, lib2) \<Rightarrow> (Inr a, lib2)))"

text \<open>
  \<open>Audio.buildFromLocalFile\<close> and \<open>Video.buildFromLocalFile\<close> hand a file of the other
  kind to each other. With format lists that share an extension the two would call each
  other for ever, so the function is partial: \<open>None\<close> is "does not return".
\<close>

partial_function (option) buildFromLocalFile :: "ingest_env \<Rightarrow> kind \<Rightarrow> string \<Rightarrow> string option \<Rightarrow>
    library \<Rightarrow> ((error + asset) \<times> library) option" where
  "buildFromLocalFile env k p src lib =
     (case files lib p of
        None \<Rightarrow> Some (Inl (Error (msg k ''fileNotFound'')), lib)
      | Some bytes \<Rightarrow>
         if drop 1 (path_extname p) \<in> set (formats env (other k))
         then buildFromLocalFile env (other k) p src lib
         else if drop 1 (path_extname p) \<notin> set (formats env k)
         then Some (Inl (Error (msg k ''fileNotSupported'')), lib)
         else Some (ingest env k p bytes src lib))"

declare buildFromLocalFile.simps [code]

section \<open>Transcription\<close>

datatype tstate = Pending | Processing | Finished

record 'r transcription = target_ref +
  targetMd5 :: string
  state :: tstate
  engine :: "string option"
  model :: "string option"
  result :: "'r option"

text \<open>
  What \<open>process\<close> is given from outside: the settings, the outcome of persisting the first
  update, the speech-to-text call \<open>whisper.transcribe\<close> (file path and force flag to either
  an error or the model type and the raw transcript), the post-processing
  \<open>whisper.groupTranscription\<close>, and the clock readings of the updates.
\<close>

record ('raw, 'r) stt_env = settings +
  persistProcessing :: "error option"
  whisper_transcribe :: "string \<Rightarrow> bool \<Rightarrow> error + (string option \<times> 'raw)"
  groupTranscription :: "'raw \<Rightarrow> error + 'r"
  startedAt :: time
  endedAt :: time

text \<open>The observable effects of one call, in order.\<close>

datatype effect =
    SetState tstate
  | WhisperCall string bool
  | SyncCall

text \<open>
  The first part of \<open>process\<close>, before its \<open>try\<close> block: the file path of the target.
  \<open>findByPk\<close> yields \<open>null\<close> for a missing row, and reading \<open>filePath\<close> of it throws.
\<close>

definition resolveFilePath :: "('raw, 'r) stt_env \<Rightarrow> 'a db_scheme \<Rightarrow> 'r transcription \<Rightarrow>
    error + string" where
  "resolveFilePath env d t =
     (if targetType t = ''Audio'' then
        (case findByPk (audios d) (targetId t) of
           None \<Rightarrow> Inl TypeError
         | Some a \<Rightarrow> Inr (filePath env Audio a))
      else if targetType t = ''Video'' then
        (case findByPk (videos d) (targetId t) of
           None \<Rightarrow> Inl TypeError
         | Some a \<Rightarrow> Inr (filePath env Video a))
      else Inr [])"

text \<open>The \<open>catch\<close> block: back to \<open>pending\<close>, and the error is thrown again.\<close>

definition rollback :: "('raw, 'r) stt_env \<Rightarrow> error \<Rightarrow> 'r transcription \<Rightarrow> effect list \<Rightarrow>
    (error + unit) \<times> 'r transcription \<times> effect list" where
  "rollback env e t effs =
     (Inl e, update (endedAt env) (\<lambda>r. r\<lparr>state := Pending\<rparr>) t, effs @ [SetState Pending])"

text \<open>The \<open>try\<close> block, entered with a non-empty file path.\<close>

definition attempt :: "('raw, 'r) stt_env \<Rightarrow> bool \<Rightarrow> string \<Rightarrow> 'r transcription \<Rightarrow>
    (error + unit) \<times> 'r transcription \<times> effect list" where
  "attempt env force fp t =
     (let t1 = update (startedAt env) (\<lambda>r. r\<lparr>state := Processing\<rparr>) t in
      case persistProcessing env of
        Some e \<Rightarrow> rollback env e t1 [SetState Processing]
      | None \<Rightarrow>
         (case whisper_transcribe env fp force of
            Inl e \<Rightarrow> rollback env e t1 [SetState Processing, WhisperCall fp force]
          | Inr (mtype, raw) \<Rightarrow>
             (case groupTranscription env raw of
                Inl e \<Rightarrow> rollback env e t1 [SetState Processing, WhisperCall fp force]
              | Inr res \<Rightarrow>
                 (Inr (),
                  update (endedAt env)
                    (\<lambda>r. r\<lparr>engine := Some ''whisper'',
                           model := (case mtype of None \<Rightarrow> model r | Some m \<Rightarrow> Some m),
                           result := Some res,
                           state := Finished\<rparr>) t1,
                  [SetState Processing, WhisperCall fp force, SetState Finished, SyncCall]))))"

definition process :: "('raw, 'r) stt_env \<Rightarrow> 'a db_scheme \<Rightarrow> bool \<Rightarrow> 'r transcription \<Rightarrow>
    (error + unit) \<times> 'r transcription \<times> effect list" where
  "process env d force t =
     (if state t = Processing then (Inr (), t, [])
      else
        (case resolveFilePath env d t of
           Inl e \<Rightarrow> (Inl e, t, [])
         | Inr fp \<Rightarrow>
            if fp = [] then (Inl (Error ''No file path.''), t, [])
            else attempt env force fp t))"

text \<open>
  \<open>process\<close> is an \<open>async\<close> function: it runs up to an \<open>await\<close>, and other code
  runs before it goes on, on the same instance. A call is therefore a sequence of four
  segments: from the start to the lookup of the file path; from there, with the write of
  \<open>processing\<close>, to the save of that write; from there to the speech-to-text call; and
  from its answer to the end. \<open>process\<close> above is one call whose segments run with
  nothing in between.
\<close>

datatype phase =
    NotStarted
  | AwaitLookup
  | AwaitSave string
  | AwaitWhisper string
  | Returned
  | Raised error

record call =
  callForce :: bool
  callPhase :: phase

text \<open>The instance, the calls made on it, and the effects so far.\<close>

record 'r shared =
  inst :: "'r transcription"
  callsOf :: "call list"
  trace :: "effect list"

definition newCall :: "bool \<Rightarrow> call" where
  "newCall force = \<lparr>callForce = force, callPhase = NotStarted\<rparr>"

definition setPhase :: "nat \<Rightarrow> phase \<Rightarrow> 'r shared \<Rightarrow> 'r shared" where
  "setPhase i ph s = s\<lparr>callsOf := (callsOf s)[i := (callsOf s ! i)\<lparr>callPhase := ph\<rparr>]\<rparr>"

text \<open>The \<open>catch\<close> block of call \<open>i\<close>.\<close>

definition caught :: "('raw, 'r) stt_env \<Rightarrow> nat \<Rightarrow> error \<Rightarrow> 'r shared \<Rightarrow> 'r shared" where
  "caught env i e s =
     setPhase i (Raised e)
       (s\<lparr>inst := update (endedAt env) (\<lambda>r. r\<lparr>state := Pending\<rparr>) (inst s),
          trace := trace s @ [SetState Pending]\<rparr>)"

text \<open>The event loop lets call \<open>i\<close> run its next segment.\<close>

definition advance :: "('raw, 'r) stt_env \<Rightarrow> 'a db_scheme \<Rightarrow> nat \<Rightarrow> 'r shared \<Rightarrow> 'r shared" where
  "advance env d i s =
     (if length (callsOf s) \<le> i then s
      else
        (case callPhase (callsOf s ! i) of
           NotStarted \<Rightarrow>
             if state (inst s) = Processing then setPhase i Returned s
             else if targetType (inst s) = ''Audio'' \<or> targetType (inst s) = ''Video''
             then setPhase i AwaitLookup s
             else setPhase i (Raised (Error ''No file path.'')) s
         | AwaitLookup \<Rightarrow>
             (case resolveFilePath env d (inst s) of
                Inl e \<Rightarrow> setPhase i (Raised e) s
              | Inr fp \<Rightarrow>
                 if fp = [] then setPhase i (Raised (Error ''No file path.'')) s
                 else setPhase i (AwaitSave fp)
                        (s\<lparr>inst := update (startedAt env) (\<lambda>r. r\<lparr>state := Processing\<rparr>) (inst s),
                           trace := trace s @ [SetState Processing]\<rparr>))
         | AwaitSave fp \<Rightarrow>
             (case persistProcessing env of
                Some e \<Rightarrow> caught env i e s
              | None \<Rightarrow>
                 setPhase i (AwaitWhisper fp)
                   (s\<lparr>trace := trace s @ [WhisperCall fp (callForce (callsOf s ! i))]\<rparr>))
         | AwaitWhisper fp \<Rightarrow>
             (case whisper_transcribe env fp (callForce (callsOf s ! i)) of
                Inl e \<Rightarrow> caught env i e s
              | Inr (mtype, raw) \<Rightarrow>
                 (case groupTranscription env raw of
                    Inl e \<Rightarrow> caught env i e s
                  | Inr res \<Rightarrow>
                     setPhase i Returned
                       (s\<lparr>inst := update (endedAt env)
                             (\<lambda>r. r\<lparr>engine := Some ''whisper'',
                                    model := (case mtype of None \<Rightarrow> model r | Some m \<Rightarrow> Some m),
                                    result := Some res,
                                    state := Finished\<rparr>) (inst s),
                          trace := trace s @ [SetState Finished, SyncCall]\<rparr>)))
         | Returned \<Rightarrow> s
         | Raised e \<Rightarrow> s))"

text \<open>
  The calls run in the order in which the event loop resumes them: a schedule names, step
  by step, the call that runs its next segment.
\<close>

definition runCalls :: "('raw, 'r) stt_env \<Rightarrow> 'a db_scheme \<Rightarrow> nat list \<Rightarrow> 'r shared \<Rightarrow> 'r shared" where
  "runCalls env d sched s = fold (advance env d) sched s"

text \<open>One call, run from the start to its end with nothing in between.\<close>

definition alone :: "('raw, 'r) stt_env \<Rightarrow> 'a db_scheme \<Rightarrow> bool \<Rightarrow> 'r transcription \<Rightarrow> 'r shared" where
  "alone env d force t =
     runCalls env d [0, 0, 0, 0] \<lparr>inst = t, callsOf = [newCall force], trace = []\<rparr>"

text \<open>
  The attempts in flight: the calls that have written \<open>processing\<close> and have not ended.
\<close>

definition inFlight :: "'r shared \<Rightarrow> nat" where
  "inFlight s =
     length (filter (\<lambda>c. case callPhase c of
                            AwaitSave fp \<Rightarrow> True
                          | AwaitWhisper fp \<Rightarrow> True
                          | _ \<Rightarrow> False) (callsOf s))"

text \<open>
  \<open>Transcription.findOrCreate\<close> as \<open>Audio.transcribe\<close> and \<open>Video.transcribe\<close> call it:
  the asset's Transcription, or a new one in the default state. Creating one fires the
  hook \<open>startTranscribeAsync\<close>, which schedules a call of \<open>process\<close>, without
  \<open>force\<close>, on the new instance; the second component is the calls so scheduled.
\<close>

definition findOrCreate :: "'r transcription list \<Rightarrow> kind \<Rightarrow> asset \<Rightarrow> time \<Rightarrow>
    'r transcription \<times> call list" where
  "findOrCreate rows k a created =
     (case find (\<lambda>t. targetId t = id' a \<and> targetType t = modelName k) rows of
        Some t \<Rightarrow> (t, [])
      | None \<Rightarrow> (\<lparr>syncedAt = None, updatedAt = created, targetId = id' a,
                   targetType = modelName k, targetMd5 = md5 a, state = Pending,
                   engine = None, model = None, result = None\<rparr>,
                  [newCall False]))"

text \<open>
  \<open>Audio.transcribe\<close> and \<open>Video.transcribe\<close>: find or create the Transcription, then
  call \<open>process\<close> according to its state. Neither this call nor the hook's is awaited:
  call 0 is the one made here, when there is one, and the hook's call comes after it; the
  schedule says how their segments interleave.
\<close>

definition transcribe :: "('raw, 'r) stt_env \<Rightarrow> 'a db_scheme \<Rightarrow> 'r transcription list \<Rightarrow> kind \<Rightarrow>
    asset \<Rightarrow> nat list \<Rightarrow> 'r shared" where
  "transcribe env d rows k a sched =
     (let (t, hooked) = findOrCreate rows k a (startedAt env);
          own = (if state t = Pending then [newCall False]
                 else if state t = Finished then [newCall True]
                 else [])
      in runCalls env d sched \<lparr>inst = t, callsOf = own @ hooked, trace = []\<rparr>)"

text \<open>
  The successive values of \<open>state\<close> during a call, as pairs of a value and the one that
  replaces it.
\<close>

fun transitions :: "tstate \<Rightarrow> effect list \<Rightarrow> (tstate \<times> tstate) list" where
  "transitions s [] = []"
| "transitions s (SetState s' # es) = (s, s') # transitions s' es"
| "transitions s (_ # es) = transitions s es"

definition allowed :: "(tstate \<times> tstate) list" where
  "allowed = [(Pending, Processing), (Processing, Finished), (Processing, Pending),
              (Finished, Processing)]"

section \<open>Downloader\<close>

text \<open>
  The transport is the browser session: it emits \<open>will-download\<close> with a fresh item, then
  \<open>updated\<close> events (\<open>progressing\<close> or \<open>interrupted\<close>) on the item and in the end one
  \<open>done\<close> event (\<open>completed\<close>, \<open>cancelled\<close> or \<open>interrupted\<close>). Every call of
  \<open>download\<close> registers one more listener on the session with \<open>session.on\<close>; a listener
  is the closure of that call, holding its \<open>savePath\<close> option and the \<open>resolve\<close> of
  the promise it returned. The items are objects shared between the session, the listeners
  and the array \<open>tasks\<close>, so they live in a store and are named by their address. The
  callers always pass their \<open>webContents\<close>, and all of them share one session.
\<close>

datatype dl_state = Progressing | Completed | Cancelled | Interrupted

datatype settlement = Unsettled | Resolved "string option" | Rejected error

record download_item =
  filename :: string
  savePath :: string
  itemState :: dl_state
  ended :: bool
  subscribers :: "nat list"

record listener =
  optSavePath :: "string option"
  promise :: settlement

record downloader =
  tasks :: "nat list"
  items :: "nat \<rightharpoonup> download_item"
  listeners :: "listener list"
  disk :: "string \<rightharpoonup> string"
  downloadsPath :: string

text \<open>Settling a promise a second time has no effect.\<close>

definition resolve :: "nat \<Rightarrow> string option \<Rightarrow> downloader \<Rightarrow> downloader" where
  "resolve l v d =
     (if l < length (listeners d) \<and> promise (listeners d ! l) = Unsettled
      then d\<lparr>listeners := (listeners d)[l := (listeners d ! l)\<lparr>promise := Resolved v\<rparr>]\<rparr>
      else d)"

text \<open>
  \<open>download(url, options)\<close>: the request goes to the transport and the listener is
  registered; the result is the handle of the returned promise.
\<close>

definition download :: "string \<Rightarrow> string option \<Rightarrow> downloader \<Rightarrow> nat \<times> downloader" where
  "download url sp d =
     (length (listeners d),
      d\<lparr>listeners := listeners d @ [\<lparr>optSavePath = sp, promise = Unsettled\<rparr>]\<rparr>)"

text \<open>
  The body of the \<open>will-download\<close> listener \<open>l\<close>, run on item \<open>i\<close>: set the save path
  (an empty \<open>savePath\<close> option is falsy), push the item on \<open>tasks\<close>, and subscribe to the
  item's \<open>updated\<close> and \<open>done\<close> events.
\<close>

definition onWillDownload :: "nat \<Rightarrow> nat \<Rightarrow> downloader \<Rightarrow> downloader" where
  "onWillDownload i l d =
     (case items d i of
        None \<Rightarrow> d
      | Some it \<Rightarrow>
         (let p = (case optSavePath (listeners d ! l) of
                     None \<Rightarrow> join (downloadsPath d) (filename it)
                   | Some sp \<Rightarrow> if sp \<noteq> [] then sp else join (downloadsPath d) (filename it))
          in d\<lparr>items := (items d)(i \<mapsto> it\<lparr>savePath := p, subscribers := subscribers it @ [l]\<rparr>),
               tasks := tasks d @ [i]\<rparr>))"

text \<open>The session emits \<open>will-download\<close>: every registered listener runs, in order.\<close>

definition willDownload :: "nat \<Rightarrow> string \<Rightarrow> downloader \<Rightarrow> downloader" where
  "willDownload i fname d =
     fold (onWillDownload i) [0..<length (listeners d)]
       (d\<lparr>items := (items d)(i \<mapsto> \<lparr>filename = fname, savePath = [], itemState = Progressing,
                                     ended = False, subscribers = []\<rparr>)\<rparr>)"

text \<open>The transport writes received bytes to the item's save path.\<close>

definition writeChunk :: "nat \<Rightarrow> string \<Rightarrow> downloader \<Rightarrow> downloader" where
  "writeChunk i bytes d =
     (case items d i of
        None \<Rightarrow> d
      | Some it \<Rightarrow>
         if ended it then d
         else d\<lparr>disk := (disk d)(savePath it \<mapsto>
                   (case disk d (savePath it) of None \<Rightarrow> bytes | Some old \<Rightarrow> old @ bytes))\<rparr>)"

text \<open>The handler of \<open>updated\<close> that listener \<open>l\<close> subscribed.\<close>

definition onUpdated :: "dl_state \<Rightarrow> nat \<Rightarrow> downloader \<Rightarrow> downloader" where
  "onUpdated st l d = (if st = Interrupted then resolve l None d else d)"

definition emitUpdated :: "nat \<Rightarrow> dl_state \<Rightarrow> downloader \<Rightarrow> downloader" where
  "emitUpdated i st d =
     (case items d i of
        None \<Rightarrow> d
      | Some it \<Rightarrow>
         if ended it then d
         else fold (onUpdated st) (subscribers it) (d\<lparr>items := (items d)(i \<mapsto> it\<lparr>itemState := st\<rparr>)\<rparr>))"

text \<open>The handler of \<open>done\<close> that listener \<open>l\<close> subscribed on item \<open>i\<close>.\<close>

definition onDone :: "nat \<Rightarrow> dl_state \<Rightarrow> nat \<Rightarrow> downloader \<Rightarrow> downloader" where
  "onDone i st l d =
     (case items d i of
        None \<Rightarrow> d
      | Some it \<Rightarrow>
         if st = Completed then resolve l (Some (savePath it)) d
         else resolve l None (d\<lparr>disk := (disk d)(savePath it := None)\<rparr>))"

definition emitDone :: "nat \<Rightarrow> dl_state \<Rightarrow> downloader \<Rightarrow> downloader" where
  "emitDone i st d =
     (case items d i of
        None \<Rightarrow> d
      | Some it \<Rightarrow>
         if ended it then d
         else fold (onDone i st) (subscribers it)
                (d\<lparr>items := (items d)(i \<mapsto> it\<lparr>itemState := st, ended := True\<rparr>)\<rparr>))"

text \<open>\<open>item.cancel()\<close> of the transport ends a live transfer as \<open>cancelled\<close>.\<close>

definition itemCancel :: "nat \<Rightarrow> downloader \<Rightarrow> downloader" where
  "itemCancel i d = emitDone i Cancelled d"

definition named :: "downloader \<Rightarrow> string \<Rightarrow> nat \<Rightarrow> bool" where
  "named d fname i = (case items d i of None \<Rightarrow> False | Some it \<Rightarrow> filename it = fname)"

definition cancel :: "string \<Rightarrow> downloader \<Rightarrow> downloader" where
  "cancel fname d =
     (case find (named d fname) (tasks d) of
        None \<Rightarrow> d
      | Some i \<Rightarrow>
         (case items d i of
            None \<Rightarrow> d
          | Some it \<Rightarrow> if itemState it = Progressing then itemCancel i d else d))"

definition cancelAll :: "downloader \<Rightarrow> downloader" where
  "cancelAll d = fold itemCancel (tasks d) d"

definition clear :: "downloader \<Rightarrow> downloader" where
  "clear d = (cancelAll d)\<lparr>tasks := []\<rparr>"

text \<open>What happens to a downloader, one event at a time.\<close>

datatype event =
    Download string "string option"
  | WillDownload nat string
  | Chunk nat string
  | Updated nat dl_state
  | Done nat dl_state
  | Cancel string
  | CancelAll

fun step :: "event \<Rightarrow> downloader \<Rightarrow> downloader" where
  "step (Download url sp) d = snd (download url sp d)"
| "step (WillDownload i fname) d = willDownload i fname d"
| "step (Chunk i bytes) d = writeChunk i bytes d"
| "step (Updated i st) d = emitUpdated i st d"
| "step (Done i st) d = emitDone i st d"
| "step (Cancel fname) d = cancel fname d"
| "step CancelAll d = cancelAll d"

definition run :: "event list \<Rightarrow> downloader \<Rightarrow> downloader" where
  "run es d = fold step es d"

definition newDownloader :: "string \<Rightarrow> downloader" where
  "newDownloader dir =
     \<lparr>tasks = [], items = Map.empty, listeners = [], disk = Map.empty, downloadsPath = dir\<rparr>"

section \<open>Auxiliary notions for the properties\<close>

text \<open>
  The first step of an attempt that fails, in the order in which \<open>process\<close> takes the
  steps: the file path, the persisted transition, the speech-to-text call, the grouping.
\<close>

definition firstFailure :: "('raw, 'r) stt_env \<Rightarrow> 'a db_scheme \<Rightarrow> bool \<Rightarrow> 'r transcription \<Rightarrow>
    error option" where
  "firstFailure env d force t =
     (case resolveFilePath env d t of
        Inl e \<Rightarrow> Some e
      | Inr fp \<Rightarrow>
         if fp = [] then Some (Error ''No file path.'')
         else
           (case persistProcessing env of
              Some e \<Rightarrow> Some e
            | None \<Rightarrow>
               (case whisper_transcribe env fp force of
                  Inl e \<Rightarrow> Some e
                | Inr (mtype, raw) \<Rightarrow>
                   (case groupTranscription env raw of Inl e \<Rightarrow> Some e | Inr res \<Rightarrow> None))))"

definition pathUnresolved :: "('raw, 'r) stt_env \<Rightarrow> 'a db_scheme \<Rightarrow> 'r transcription \<Rightarrow> bool" where
  "pathUnresolved env d t = (case resolveFilePath env d t of Inl e \<Rightarrow> True | Inr fp \<Rightarrow> fp = [])"

text \<open>
  A run of mutations of one record: each is an \<open>update\<close> at its own time.
\<close>

definition mutate :: "(time \<times> ('a timestamps_scheme \<Rightarrow> 'a timestamps_scheme)) list \<Rightarrow>
    'a timestamps_scheme \<Rightarrow> 'a timestamps_scheme" where
  "mutate us r = fold (\<lambda>(tm, f). update tm f) us r"

text \<open>
  What is known of a row that an ingestion of the file at \<open>p\<close> has created.
\<close>

definition createdFrom :: "ingest_env \<Rightarrow> library \<Rightarrow> string \<Rightarrow> (error + asset) \<times> library \<Rightarrow> bool" where
  "createdFrom env lib p y =
     (case fst y of
        Inl e \<Rightarrow> True
      | Inr a \<Rightarrow>
         (case files lib p of
            None \<Rightarrow> False
          | Some bytes \<Rightarrow>
             md5 a = hashFile env bytes \<and>
             id' a = (if uuidv4 env \<noteq> [] then uuidv4 env
                      else uuidv5 env (userId env @ ''/'' @ hashFile env bytes) uuid_URL) \<and>
             a \<in> set (audios (snd y) @ videos (snd y))))"

text \<open>No promise of the downloader is rejected.\<close>

definition unrejected :: "downloader \<Rightarrow> bool" where
  "unrejected d = list_all (\<lambda>l. case promise l of Rejected e \<Rightarrow> False | _ \<Rightarrow> True) (listeners d)"

text \<open>The save path that a call with option \<open>sp\<close> gives an item named \<open>fname\<close>.\<close>

definition chosenPath :: "string \<Rightarrow> string option \<Rightarrow> string \<Rightarrow> string" where
  "chosenPath dir sp fname =
     (case sp of None \<Rightarrow> join dir fname | Some s \<Rightarrow> if s \<noteq> [] then s else join dir fname)"

text \<open>
  A downloader that has been asked for one download only, whose item is live: one
  listener, one item, and the promise at most settled by an interruption.
\<close>

definition solo :: "string \<Rightarrow> downloader \<Rightarrow> bool" where
  "solo path d =
     (tasks d = [0] \<and> length (listeners d) = 1 \<and>
      promise (listeners d ! 0) \<in> {Unsettled, Resolved None} \<and>
      (case items d 0 of
         None \<Rightarrow> False
       | Some it \<Rightarrow> savePath it = path \<and> subscribers it = [0] \<and> \<not> ended it))"

text \<open>The events of the transport on that item before it ends.\<close>

fun transferEvent :: "event \<Rightarrow> bool" where
  "transferEvent (Chunk i bytes) = (i = 0)"
| "transferEvent (Updated i st) = (i = 0 \<and> (st = Progressing \<or> st = Interrupted))"
| "transferEvent _ = False"

section \<open>Concrete inputs\<close>

definition demo_stt :: "(string, string) stt_env" where
  "demo_stt = \<lparr>libraryPath = ''/library'', userId = ''7'',
     persistProcessing = None,
     whisper_transcribe = (\<lambda>fp force. Inr (Some ''base'', ''hello world'')),
     groupTranscription = (\<lambda>raw. Inr raw),
     startedAt = 10, endedAt = 20\<rparr>"

definition failing_stt :: "(string, string) stt_env" where
  "failing_stt =
     demo_stt\<lparr>whisper_transcribe := (\<lambda>fp force. Inl (Error ''whisper exited with 1''))\<rparr>"

definition talk_row :: asset where
  "talk_row = \<lparr>syncedAt = None, updatedAt = 1, id' = ''3f2b8c1e-9a4d-4e6f-8b7a-1c2d3e4f5a6b'',
     source = Some ''/home/u/talk.mp3'', md5 = ''abc123'', metadata_extname = ''.mp3'',
     recordingsCount = 0, recordingsDuration = 0, uploadedAt = None\<rparr>"

definition empty_db :: db where
  "empty_db = \<lparr>audios = [], videos = [], recordings = []\<rparr>"

definition talk_db :: db where
  "talk_db = \<lparr>audios = [talk_row], videos = [], recordings = []\<rparr>"

definition talk_transcription :: "tstate \<Rightarrow> string transcription" where
  "talk_transcription s = \<lparr>syncedAt = None, updatedAt = 5,
     targetId = ''3f2b8c1e-9a4d-4e6f-8b7a-1c2d3e4f5a6b'',
     targetType = ''Audio'', targetMd5 = ''abc123'', state = s, engine = None, model = None,
     result = None\<rparr>"

definition demo_settings :: settings where
  "demo_settings = \<lparr>libraryPath = ''/library'', userId = ''7''\<rparr>"

definition synced_row :: asset where
  "synced_row = talk_row\<lparr>syncedAt := Some 100, updatedAt := 90\<rparr>"

definition uploaded_row :: asset where
  "uploaded_row = talk_row\<lparr>uploadedAt := Some 50\<rparr>"

definition put_ok :: "string \<Rightarrow> string \<Rightarrow> error + put_result" where
  "put_ok h p = Inr \<lparr>success = True, dataText = ''stored''\<rparr>"

definition put_refused :: "string \<Rightarrow> string \<Rightarrow> error + put_result" where
  "put_refused h p = Inr \<lparr>success = False, dataText = ''quota exceeded''\<rparr>"

definition put_down :: "string \<Rightarrow> string \<Rightarrow> error + put_result" where
  "put_down h p = Inl (Error ''ECONNRESET'')"

definition demo_ingest :: ingest_env where
  "demo_ingest = \<lparr>libraryPath = ''/library'', userId = ''7'',
     audioFormats = [''mp3'', ''wav'', ''ogg''], videoFormats = [''mp4'', ''mkv'', ''webm''],
     hashFile = (\<lambda>bytes. if bytes = ''ID3 talk'' then ''abc123'' else ''d41d8c''),
     uuidv5 = (\<lambda>nm ns. ''uuid5('' @ nm @ '')''),
     uuidv4 = ''9c5b94b1-35ad-49bb-b118-8e8fc24abf80'', copyFails = False, clock = 1\<rparr>"

definition earlier_ingest :: ingest_env where
  "earlier_ingest = demo_ingest\<lparr>uuidv4 := ''3f2b8c1e-9a4d-4e6f-8b7a-1c2d3e4f5a6b''\<rparr>"

definition talk_lib :: library where
  "talk_lib = \<lparr>audios = [], videos = [], recordings = [],
     files = [''/home/u/talk.mp3'' \<mapsto> ''ID3 talk'']\<rparr>"

definition copy_lib :: library where
  "copy_lib = \<lparr>audios = [], videos = [], recordings = [],
     files = [''/media/usb/lecture.mp3'' \<mapsto> ''ID3 talk'']\<rparr>"

definition lib_once :: library where
  "lib_once = talk_lib\<lparr>audios := [talk_row],
     files := (files talk_lib)(''/library/7/audios/abc123.mp3'' \<mapsto> ''ID3 talk'')\<rparr>"

definition lib_twice :: library where
  "lib_twice = lib_once\<lparr>files := (files lib_once)(''/library/7/audios/abc123.mp3'' := None)\<rparr>"

definition copy_once :: library where
  "copy_once = copy_lib\<lparr>audios := [talk_row\<lparr>source := None, id' := uuidv4 demo_ingest\<rparr>],
     files := (files copy_lib)(''/library/7/audios/abc123.mp3'' \<mapsto> ''ID3 talk'')\<rparr>"

definition lecture_video :: asset where
  "lecture_video = \<lparr>syncedAt = None, updatedAt = 1, id' = ''v1'',
     source = Some ''/home/u/lecture.mp4'', md5 = ''9f86d0'', metadata_extname = ''.mp4'',
     recordingsCount = 0, recordingsDuration = 0, uploadedAt = None\<rparr>"

definition video_db :: db where
  "video_db = \<lparr>audios = [], videos = [lecture_video], recordings = []\<rparr>"

definition video_clip :: recording where
  "video_clip = \<lparr>syncedAt = None, updatedAt = 2, targetId = ''v1'', targetType = ''Video'',
     duration = 5\<rparr>"

text \<open>
  Two downloads that overlap. In the first trace the second transfer completes and the
  first is then cancelled by name; in the second trace the second transfer is interrupted
  for good and the first then completes.
\<close>

definition overlap_cancel :: "event list" where
  "overlap_cancel =
     [Download ''https://a.example/a.mp3'' None, WillDownload 0 ''a.mp3'',
      Download ''https://b.example/b.mp3'' None, WillDownload 1 ''b.mp3'',
      Chunk 0 ''aa'', Chunk 1 ''bbbb'', Done 1 Completed, Cancel ''a.mp3'']"

definition overlap_complete :: "event list" where
  "overlap_complete =
     [Download ''https://a.example/a.mp3'' None, WillDownload 0 ''a.mp3'',
      Download ''https://b.example/b.mp3'' None, WillDownload 1 ''b.mp3'',
      Chunk 0 ''aa'', Chunk 1 ''bb'', Done 1 Interrupted, Chunk 0 ''aa'', Done 0 Completed]"

text \<open>
  The instance and the two calls on a newly created Transcription of \<open>talk_row\<close>.
\<close>

definition twin :: "tstate \<Rightarrow> time \<Rightarrow> phase \<Rightarrow> phase \<Rightarrow> effect list \<Rightarrow> string shared" where
  "twin st tm ph0 ph1 tr =
     \<lparr>inst = (talk_transcription st)\<lparr>updatedAt := tm\<rparr>,
      callsOf = [\<lparr>callForce = False, callPhase = ph0\<rparr>, \<lparr>callForce = False, callPhase = ph1\<rparr>],
      trace = tr\<rparr>"

section \<open>Properties of the transcription state machine\<close>

lemma attempt_fail_state:
  "fst (attempt env force fp t) = Inl e \<Longrightarrow> state (fst (snd (attempt env force fp t))) = Pending"
  by (auto simp: attempt_def rollback_def update_def Let_def
      split: option.splits sum.splits prod.splits)

lemma attempt_result:
  "fst (attempt env force fp t) =
     (case persistProcessing env of
        Some e \<Rightarrow> Inl e
      | None \<Rightarrow>
         (case whisper_transcribe env fp force of
            Inl e \<Rightarrow> Inl e
          | Inr (mtype, raw) \<Rightarrow>
             (case groupTranscription env raw of Inl e \<Rightarrow> Inl e | Inr res \<Rightarrow> Inr ())))"
  by (simp add: attempt_def rollback_def Let_def split: option.splits sum.splits prod.splits)

lemma attempt_effects:
  "snd (snd (attempt env force fp t)) \<in>
     {[SetState Processing, SetState Pending],
      [SetState Processing, WhisperCall fp force, SetState Pending],
      [SetState Processing, WhisperCall fp force, SetState Finished, SyncCall]}"
  by (simp add: attempt_def rollback_def Let_def split: option.splits sum.splits prod.splits)

lemma process_effects:
  "snd (snd (process env d force t)) = [] \<or>
   state t \<noteq> Processing \<and> (\<exists>fp. resolveFilePath env d t = Inr fp \<and> fp \<noteq> [] \<and>
     snd (snd (process env d force t)) \<in>
       {[SetState Processing, SetState Pending],
        [SetState Processing, WhisperCall fp force, SetState Pending],
        [SetState Processing, WhisperCall fp force, SetState Finished, SyncCall]})"
  using attempt_effects[of env force _ t]
  by (auto simp: process_def split: sum.splits)

text \<open>
  C1, as the code has it. When an attempt fails, the error of the failing step is what
  \<open>process\<close> raises, and the record is never left in \<open>processing\<close>. A failure of the
  persisted transition, of the speech-to-text call or of the grouping leaves the state
  \<open>pending\<close>. A failure to resolve the file path happens before the transition and outside
  the \<open>try\<close> block: it leaves the record exactly as it was, \<open>pending\<close> or \<open>finished\<close>.
\<close>

theorem process_failure_rollback:
  assumes "state t \<noteq> Processing" and "firstFailure env d force t = Some e"
  shows "fst (process env d force t) = Inl e \<and>
         state (fst (snd (process env d force t))) \<noteq> Processing \<and>
         (if pathUnresolved env d t
          then fst (snd (process env d force t)) = t
          else state (fst (snd (process env d force t))) = Pending)"
proof (cases "resolveFilePath env d t")
  case (Inl x)
  with assms show ?thesis
    by (simp add: process_def firstFailure_def pathUnresolved_def)
next
  case (Inr fp)
  show ?thesis
  proof (cases "fp = []")
    case True
    with Inr assms show ?thesis
      by (simp add: process_def firstFailure_def pathUnresolved_def)
  next
    case False
    with Inr assms have res: "fst (attempt env force fp t) = Inl e"
      by (auto simp: attempt_result firstFailure_def
          split: option.splits sum.splits prod.splits)
    from attempt_fail_state[OF res] res Inr False assms(1) show ?thesis
      by (simp add: process_def pathUnresolved_def)
  qed
qed

text \<open>
  The theorem at a pending record whose speech-to-text call fails: the error comes back
  and the state is \<open>pending\<close>. And at a finished record whose audio row is missing:
  the error comes back and the record is as it was.
\<close>

theorem process_failure_rollback_witness:
  "fst (process failing_stt talk_db False (talk_transcription Pending)) =
     Inl (Error ''whisper exited with 1'') \<and>
   state (fst (snd (process failing_stt talk_db False (talk_transcription Pending)))) = Pending \<and>
   fst (process demo_stt empty_db True (talk_transcription Finished)) = Inl TypeError \<and>
   fst (snd (process demo_stt empty_db True (talk_transcription Finished))) =
     talk_transcription Finished"
  using process_failure_rollback[of "talk_transcription Pending" failing_stt talk_db False
      "Error ''whisper exited with 1''"]
    process_failure_rollback[of "talk_transcription Finished" demo_stt empty_db True TypeError]
  by (simp add: firstFailure_def pathUnresolved_def resolveFilePath_def talk_transcription_def
      talk_db_def empty_db_def findByPk_def talk_row_def failing_stt_def demo_stt_def
      filePath_def join_def)

text \<open>
  C1 as stated fails: a finished record whose audio row is gone is processed again with
  \<open>force\<close>; the path resolution throws, and the state after the failure is \<open>finished\<close>,
  not \<open>pending\<close>.
\<close>

theorem finished_path_failure_counterexample:
  "firstFailure demo_stt empty_db True (talk_transcription Finished) = Some TypeError \<and>
   fst (process demo_stt empty_db True (talk_transcription Finished)) = Inl TypeError \<and>
   state (fst (snd (process demo_stt empty_db True (talk_transcription Finished)))) = Finished"
  by (simp add: firstFailure_def process_def resolveFilePath_def talk_transcription_def
      empty_db_def findByPk_def)

lemma advance_NotStarted:
  "i < length (callsOf s) \<Longrightarrow> callPhase (callsOf s ! i) = NotStarted \<Longrightarrow>
   advance env d i s =
     (if state (inst s) = Processing then setPhase i Returned s
      else if targetType (inst s) = ''Audio'' \<or> targetType (inst s) = ''Video''
      then setPhase i AwaitLookup s
      else setPhase i (Raised (Error ''No file path.'')) s)"
  by (simp add: advance_def)

lemma advance_AwaitLookup:
  "i < length (callsOf s) \<Longrightarrow> callPhase (callsOf s ! i) = AwaitLookup \<Longrightarrow>
   advance env d i s =
     (case resolveFilePath env d (inst s) of
        Inl e \<Rightarrow> setPhase i (Raised e) s
      | Inr fp \<Rightarrow>
         if fp = [] then setPhase i (Raised (Error ''No file path.'')) s
         else setPhase i (AwaitSave fp)
                (s\<lparr>inst := update (startedAt env) (\<lambda>r. r\<lparr>state := Processing\<rparr>) (inst s),
                   trace := trace s @ [SetState Processing]\<rparr>))"
  by (simp add: advance_def)

lemma advance_AwaitSave:
  "i < length (callsOf s) \<Longrightarrow> callPhase (callsOf s ! i) = AwaitSave fp \<Longrightarrow>
   advance env d i s =
     (case persistProcessing env of
        Some e \<Rightarrow> caught env i e s
      | None \<Rightarrow>
         setPhase i (AwaitWhisper fp)
           (s\<lparr>trace := trace s @ [WhisperCall fp (callForce (callsOf s ! i))]\<rparr>))"
  by (simp add: advance_def)

lemma advance_AwaitWhisper:
  "i < length (callsOf s) \<Longrightarrow> callPhase (callsOf s ! i) = AwaitWhisper fp \<Longrightarrow>
   advance env d i s =
     (case whisper_transcribe env fp (callForce (callsOf s ! i)) of
        Inl e \<Rightarrow> caught env i e s
      | Inr (mtype, raw) \<Rightarrow>
         (case groupTranscription env raw of
            Inl e \<Rightarrow> caught env i e s
          | Inr res \<Rightarrow>
             setPhase i Returned
               (s\<lparr>inst := update (endedAt env)
                     (\<lambda>r. r\<lparr>engine := Some ''whisper'',
                            model := (case mtype of None \<Rightarrow> model r | Some m \<Rightarrow> Some m),
                            result := Some res,
                            state := Finished\<rparr>) (inst s),
                  trace := trace s @ [SetState Finished, SyncCall]\<rparr>)))"
  by (simp add: advance_def)

lemma advance_ended:
  "callPhase (callsOf s ! i) = Returned \<or> callPhase (callsOf s ! i) = Raised e \<Longrightarrow>
   advance env d i s = s"
  by (auto simp: advance_def)

lemmas advance_steps = advance_NotStarted advance_AwaitLookup advance_AwaitSave
  advance_AwaitWhisper advance_ended

lemma process_guard:
  "state t = Processing \<Longrightarrow> process env d force t = (Inr (), t, [])"
  by (simp add: process_def)

lemma alone_is_process:
  "alone env d force t =
     \<lparr>inst = fst (snd (process env d force t)),
      callsOf = [\<lparr>callForce = force,
                  callPhase = (case fst (process env d force t) of
                                 Inl e \<Rightarrow> Raised e | Inr u \<Rightarrow> Returned)\<rparr>],
      trace = snd (snd (process env d force t))\<rparr>"
proof (cases "state t = Processing")
  case True
  then show ?thesis
    by (simp add: alone_def runCalls_def newCall_def advance_steps setPhase_def process_def)
next
  case live: False
  show ?thesis
  proof (cases "targetType t = ''Audio'' \<or> targetType t = ''Video''")
    case False
    then have "resolveFilePath env d t = Inr []" by (simp add: resolveFilePath_def)
    with live False show ?thesis
      by (simp add: alone_def runCalls_def newCall_def advance_steps setPhase_def process_def)
  next
    case known: True
    show ?thesis
    proof (cases "resolveFilePath env d t")
      case (Inl e)
      with live known show ?thesis
        by (simp add: alone_def runCalls_def newCall_def advance_steps setPhase_def
            process_def)
    next
      case (Inr fp)
      show ?thesis
      proof (cases "fp = []")
        case True
        with Inr live known show ?thesis
          by (simp add: alone_def runCalls_def newCall_def advance_steps setPhase_def
              process_def)
      next
        case path: False
        show ?thesis
        proof (cases "persistProcessing env")
          case (Some e)
          with Inr live known path show ?thesis
            by (simp add: alone_def runCalls_def newCall_def advance_steps setPhase_def
                caught_def process_def attempt_def rollback_def)
        next
          case None
          show ?thesis
          proof (cases "whisper_transcribe env fp force")
            case (Inl e)
            with None Inr live known path show ?thesis
              by (simp add: alone_def runCalls_def newCall_def advance_steps setPhase_def
                  caught_def process_def attempt_def rollback_def)
          next
            case answer: (Inr out)
            obtain mtype raw where out: "out = (mtype, raw)" by (cases out)
            show ?thesis
            proof (cases "groupTranscription env raw")
              case (Inl e)
              with answer out None Inr live known path show ?thesis
                by (simp add: alone_def runCalls_def newCall_def advance_steps setPhase_def
                    caught_def process_def attempt_def rollback_def)
            next
              case grouped: (Inr res)
              with answer out None Inr live known path show ?thesis
                by (simp add: alone_def runCalls_def newCall_def advance_steps setPhase_def
                    caught_def process_def attempt_def rollback_def update_def)
            qed
          qed
        qed
      qed
    qed
  qed
qed


lemma demo_stt_sel:
  "persistProcessing demo_stt = None" "startedAt demo_stt = 10" "endedAt demo_stt = 20"
  by (simp_all add: demo_stt_def)

lemma talk_inst:
  "state ((talk_transcription st)\<lparr>updatedAt := tm\<rparr>) = st"
  "targetType ((talk_transcription st)\<lparr>updatedAt := tm\<rparr>) = ''Audio''"
  "update tm' (\<lambda>r. r\<lparr>state := st'\<rparr>) ((talk_transcription st)\<lparr>updatedAt := tm\<rparr>) =
     (talk_transcription st')\<lparr>updatedAt := tm'\<rparr>"
  by (simp_all add: talk_transcription_def update_def)

lemma talk_path:
  "resolveFilePath demo_stt talk_db ((talk_transcription st)\<lparr>updatedAt := tm\<rparr>) =
     Inr ''/library/7/audios/abc123.mp3''"
  by (simp add: resolveFilePath_def talk_transcription_def talk_db_def findByPk_def talk_row_def
      demo_stt_def filePath_def join_def userDataPath_def dirName_def extname_def)

lemma twin_start:
  "transcribe demo_stt talk_db [] Audio talk_row sched =
     runCalls demo_stt talk_db sched (twin Pending 10 NotStarted NotStarted [])"
  by (simp add: transcribe_def findOrCreate_def twin_def talk_transcription_def talk_row_def
      modelName_def newCall_def demo_stt_def)

lemma twin_step1:
  "advance demo_stt talk_db 0 (twin Pending 10 NotStarted NotStarted []) =
     twin Pending 10 AwaitLookup NotStarted []"
  by (simp add: advance_NotStarted twin_def setPhase_def talk_inst)

lemma twin_step2:
  "advance demo_stt talk_db 1 (twin Pending 10 AwaitLookup NotStarted []) =
     twin Pending 10 AwaitLookup AwaitLookup []"
  by (simp add: advance_NotStarted twin_def setPhase_def talk_inst)

lemma twin_step3:
  "advance demo_stt talk_db 0 (twin Pending 10 AwaitLookup AwaitLookup []) =
     twin Processing 10 (AwaitSave ''/library/7/audios/abc123.mp3'') AwaitLookup
       [SetState Processing]"
  by (simp add: advance_AwaitLookup twin_def setPhase_def talk_inst talk_path demo_stt_sel)

lemma twin_step4:
  "advance demo_stt talk_db 1
     (twin Processing 10 (AwaitSave ''/library/7/audios/abc123.mp3'') AwaitLookup
        [SetState Processing]) =
     twin Processing 10 (AwaitSave ''/library/7/audios/abc123.mp3'')
       (AwaitSave ''/library/7/audios/abc123.mp3'') [SetState Processing, SetState Processing]"
  by (simp add: advance_AwaitLookup twin_def setPhase_def talk_inst talk_path demo_stt_sel)

lemma twin_step5:
  "advance demo_stt talk_db 0
     (twin Processing 10 (AwaitSave ''/library/7/audios/abc123.mp3'')
        (AwaitSave ''/library/7/audios/abc123.mp3'') [SetState Processing, SetState Processing]) =
     twin Processing 10 (AwaitWhisper ''/library/7/audios/abc123.mp3'')
       (AwaitSave ''/library/7/audios/abc123.mp3'')
       [SetState Processing, SetState Processing,
        WhisperCall ''/library/7/audios/abc123.mp3'' False]"
  by (simp add: advance_AwaitSave twin_def setPhase_def demo_stt_sel)

lemma twin_step6:
  "advance demo_stt talk_db 1
     (twin Processing 10 (AwaitWhisper ''/library/7/audios/abc123.mp3'')
        (AwaitSave ''/library/7/audios/abc123.mp3'')
        [SetState Processing, SetState Processing,
         WhisperCall ''/library/7/audios/abc123.mp3'' False]) =
     twin Processing 10 (AwaitWhisper ''/library/7/audios/abc123.mp3'')
       (AwaitWhisper ''/library/7/audios/abc123.mp3'')
       [SetState Processing, SetState Processing,
        WhisperCall ''/library/7/audios/abc123.mp3'' False,
        WhisperCall ''/library/7/audios/abc123.mp3'' False]"
  by (simp add: advance_AwaitSave twin_def setPhase_def demo_stt_sel)

lemma new_row_run:
  "transcribe demo_stt talk_db [] Audio talk_row [0, 1, 0, 1, 0, 1] =
     twin Processing 10 (AwaitWhisper ''/library/7/audios/abc123.mp3'')
       (AwaitWhisper ''/library/7/audios/abc123.mp3'')
       [SetState Processing, SetState Processing,
        WhisperCall ''/library/7/audios/abc123.mp3'' False,
        WhisperCall ''/library/7/audios/abc123.mp3'' False]"
  by (simp only: twin_start runCalls_def fold_simps comp_def
      twin_step1 twin_step2 twin_step3 twin_step4 twin_step5 twin_step6 id_apply)

text \<open>
  C2 at a newly created Transcription. \<open>Audio.transcribe\<close> finds no row and
  \<open>findOrCreate\<close> creates one; the hook schedules \<open>process\<close> and \<open>transcribe\<close>
  calls \<open>process\<close>. The guard of each call reads \<open>pending\<close>, because the write of
  \<open>processing\<close> comes only after the lookup of the file path has been awaited. With the
  two calls resumed in turn, both write \<open>processing\<close> and both call the speech-to-text
  collaborator: two attempts on one record are in flight. A call that starts when the
  state already is \<open>processing\<close> does return at once (\<open>process_guard\<close>).
\<close>

theorem new_row_two_attempts_in_flight:
  "inFlight (transcribe demo_stt talk_db [] Audio talk_row [0, 1, 0, 1, 0, 1]) = 2 \<and>
   trace (transcribe demo_stt talk_db [] Audio talk_row [0, 1, 0, 1, 0, 1]) =
     [SetState Processing, SetState Processing,
      WhisperCall ''/library/7/audios/abc123.mp3'' False,
      WhisperCall ''/library/7/audios/abc123.mp3'' False]"
  unfolding new_row_run by (simp add: twin_def inFlight_def)

lemma overlap_outside_allowed:
  "(Processing, Processing) \<in>
     set (transitions Pending (trace (transcribe demo_stt talk_db [] Audio talk_row
            [0, 1, 0, 1, 0, 1]))) \<and>
   (Processing, Processing) \<notin> set allowed"
  unfolding new_row_run by (simp add: twin_def allowed_def)

lemma process_transitions_allowed:
  "set (transitions (state t) (snd (snd (process env d force t)))) \<subseteq> set allowed"
  using process_effects[of env d force t]
  by (cases "state t") (auto simp: allowed_def)

lemma process_finished_starts:
  "state t = Finished \<Longrightarrow> resolveFilePath env d t = Inr fp \<Longrightarrow> fp \<noteq> [] \<Longrightarrow>
   take 1 (snd (snd (process env d force t))) = [SetState Processing]"
  using attempt_effects[of env force fp t]
  by (auto simp: process_def)

lemma process_whisper_flag:
  "WhisperCall fp f \<in> set (snd (snd (process env d force t))) \<Longrightarrow> f = force"
  using process_effects[of env d force t] by auto

lemma setPhase_forces:
  "map callForce (callsOf (setPhase i ph s)) = map callForce (callsOf s)"
  by (cases "i < length (callsOf s)")
    (simp_all add: setPhase_def map_update list_update_same_conv list_update_beyond)

lemma setPhase_trace: "trace (setPhase i ph s) = trace s"
  by (simp add: setPhase_def)

lemma caught_forces: "map callForce (callsOf (caught env i e s)) = map callForce (callsOf s)"
  by (simp add: caught_def setPhase_forces)

lemma caught_trace: "trace (caught env i e s) = trace s @ [SetState Pending]"
  by (simp add: caught_def setPhase_trace)

lemma advance_forces:
  "map callForce (callsOf (advance env d i s)) = map callForce (callsOf s)"
  by (simp add: advance_def setPhase_forces caught_forces
      split: phase.splits sum.splits option.splits prod.splits)

lemma advance_whisper:
  assumes "WhisperCall fp f \<in> set (trace (advance env d i s))"
  shows "WhisperCall fp f \<in> set (trace s) \<or> f \<in> set (map callForce (callsOf s))"
proof (cases "length (callsOf s) \<le> i")
  case True
  with assms show ?thesis by (simp add: advance_def)
next
  case False
  then have "callForce (callsOf s ! i) \<in> set (map callForce (callsOf s))" by simp
  with assms False show ?thesis
    by (auto simp: advance_def setPhase_trace caught_trace
        split: phase.splits sum.splits option.splits prod.splits if_splits)
qed

lemma runCalls_whisper:
  "WhisperCall fp f \<in> set (trace (runCalls env d sched s)) \<Longrightarrow>
   WhisperCall fp f \<in> set (trace s) \<or> f \<in> set (map callForce (callsOf s))"
proof (induction sched arbitrary: s)
  case Nil
  then show ?case by (simp add: runCalls_def)
next
  case (Cons i sched)
  from Cons.prems have "WhisperCall fp f \<in> set (trace (runCalls env d sched (advance env d i s)))"
    by (simp add: runCalls_def)
  from Cons.IH[OF this] advance_whisper[of fp f env d i s] show ?case
    by (auto simp: advance_forces)
qed

lemma transcribe_force:
  assumes "WhisperCall fp f \<in> set (trace (transcribe env d rows k a sched))"
  shows "f = (state (fst (findOrCreate rows k a (startedAt env))) = Finished)"
proof -
  obtain t hooked where fc: "findOrCreate rows k a (startedAt env) = (t, hooked)"
    by (cases "findOrCreate rows k a (startedAt env)")
  have hooked: "hooked = [] \<or> hooked = [newCall False] \<and> state t = Pending"
    using fc by (auto simp: findOrCreate_def split: option.splits)
  let ?own = "if state t = Pending then [newCall False]
              else if state t = Finished then [newCall True] else []"
  from assms fc have "WhisperCall fp f \<in> set (trace (runCalls env d sched
      \<lparr>inst = t, callsOf = ?own @ hooked, trace = []\<rparr>))"
    by (simp add: transcribe_def)
  from runCalls_whisper[OF this] have "f \<in> set (map callForce (?own @ hooked))" by simp
  with hooked have "f = (state t = Finished)"
    by (auto simp: newCall_def split: if_splits)
  with fc show ?thesis by simp
qed

lemma found_finished_alone:
  "transcribe demo_stt talk_db [talk_transcription Finished] Audio talk_row [0, 0, 0, 0] =
     alone demo_stt talk_db True (talk_transcription Finished)"
  by (simp add: transcribe_def findOrCreate_def alone_def talk_transcription_def talk_row_def
      modelName_def)

text \<open>
  C3, as the code has it. A call of \<open>process\<close> that runs from its start to its end
  with no other call on the record in between, which is what \<open>process\<close> computes
  (\<open>alone_is_process\<close>), moves the state only along pending to processing, processing to
  finished, processing to pending and finished to processing. \<open>process\<close> itself does
  not look at \<open>force\<close> before the transition: on a finished record whose file path
  resolves it starts a new attempt for either value of the flag, which is only handed on to
  the speech-to-text call. It is the owning asset's \<open>transcribe\<close> that passes
  \<open>force = true\<close> exactly when the record it found is finished: under every schedule of
  the calls it leads to, its own and the hook's, each speech-to-text call carries the flag
  \<open>true\<close> exactly in that case.
\<close>

theorem transcription_transitions:
  "set (transitions (state t) (snd (snd (process env d force t)))) \<subseteq> set allowed \<and>
   (state t = Finished \<and> resolveFilePath env d t = Inr fp \<and> fp \<noteq> [] \<longrightarrow>
      take 1 (snd (snd (process env d force t))) = [SetState Processing]) \<and>
   (WhisperCall fp' f \<in> set (trace (transcribe env d rows k a sched)) \<longrightarrow>
      f = (state (fst (findOrCreate rows k a (startedAt env))) = Finished))"
  using process_transitions_allowed[of t env d force]
    process_finished_starts[of t env d fp force]
    transcribe_force[of fp' f env d rows k a sched]
  by blast

theorem transcription_transitions_witness:
  "transitions Finished
     (snd (snd (process demo_stt talk_db False (talk_transcription Finished)))) =
     [(Finished, Processing), (Processing, Finished)] \<and>
   take 1 (snd (snd (process demo_stt talk_db False (talk_transcription Finished)))) =
     [SetState Processing] \<and>
   WhisperCall ''/library/7/audios/abc123.mp3'' True \<in>
     set (trace (transcribe demo_stt talk_db [talk_transcription Finished] Audio talk_row
            [0, 0, 0, 0]))"
  using transcription_transitions[of "talk_transcription Finished" demo_stt talk_db False
      "''/library/7/audios/abc123.mp3''" "''/library/7/audios/abc123.mp3''" True
      "[talk_transcription Finished]" Audio talk_row "[0, 0, 0, 0]"]
  unfolding found_finished_alone alone_is_process
  by (simp add: process_def attempt_def
      resolveFilePath_def talk_transcription_def talk_db_def
      findByPk_def talk_row_def demo_stt_def filePath_def join_def userDataPath_def dirName_def
      extname_def Let_def update_def)


text \<open>
  C3 as stated fails: \<open>process\<close> without \<open>force\<close> on a finished record does start a
  new attempt; the state goes to \<open>processing\<close> and the speech-to-text collaborator is
  called, with the flag \<open>false\<close>.
\<close>

theorem unforced_reprocess_counterexample:
  "snd (snd (process demo_stt talk_db False (talk_transcription Finished))) =
     [SetState Processing, WhisperCall ''/library/7/audios/abc123.mp3'' False,
      SetState Finished, SyncCall]"
  by (simp add: process_def attempt_def resolveFilePath_def talk_transcription_def talk_db_def
      findByPk_def talk_row_def demo_stt_def filePath_def join_def userDataPath_def dirName_def
      extname_def Let_def)

section \<open>Properties of the sync and upload timestamps\<close>

lemma isSynced_iff: "isSynced r \<longleftrightarrow> (\<exists>s. syncedAt r = Some s \<and> updatedAt r \<le> s)"
  by (simp add: isSynced_def split: option.splits)

lemma mutate_syncedAt:
  "\<forall>(tm, f) \<in> set us. \<forall>x. syncedAt (f x) = syncedAt x \<Longrightarrow>
   syncedAt (mutate us r) = syncedAt r"
  by (induction us arbitrary: r) (auto simp: mutate_def update_def)

lemma mutate_snoc: "mutate (us @ [(tm, f)]) r = update tm f (mutate us r)"
  by (simp add: mutate_def)

lemma stale_after_mutations:
  assumes "syncedAt r = Some s" and "us \<noteq> []"
    and "\<forall>(tm, f) \<in> set us. s < tm \<and> (\<forall>x. syncedAt (f x) = syncedAt x)"
  shows "\<not> isSynced (mutate us r)"
proof -
  from assms(2) obtain us' tm f where us: "us = us' @ [(tm, f)]"
    by (cases us rule: rev_cases) auto
  with assms(3) have keep: "\<forall>(tm, f) \<in> set us'. \<forall>x. syncedAt (f x) = syncedAt x"
    and f: "\<forall>x. syncedAt (f x) = syncedAt x" and late: "s < tm"
    by auto
  from mutate_syncedAt[OF keep] assms(1) have "syncedAt (mutate us' r) = Some s" by simp
  with f late show ?thesis
    by (simp add: us mutate_snoc isSynced_def update_def)
qed

text \<open>
  C6. For a record of any of the four models, \<open>isSynced\<close> holds exactly when \<open>syncedAt\<close>
  is set and not earlier than \<open>updatedAt\<close>. Hence after any run of mutations made later
  than \<open>syncedAt\<close>, none of which writes \<open>syncedAt\<close>, the record is not synced: it stays
  so until a sync records a new \<open>syncedAt\<close>.
\<close>

theorem isSynced_staleness:
  "(isSynced r \<longleftrightarrow> (\<exists>s. syncedAt r = Some s \<and> updatedAt r \<le> s)) \<and>
   (syncedAt r = Some s \<and> us \<noteq> [] \<and>
    (\<forall>(tm, f) \<in> set us. s < tm \<and> (\<forall>x. syncedAt (f x) = syncedAt x)) \<longrightarrow>
      \<not> isSynced (mutate us r))"
  using isSynced_iff[of r] stale_after_mutations[of r s us] by blast

theorem isSynced_staleness_witness:
  "isSynced synced_row \<and>
   \<not> isSynced (mutate [(150, \<lambda>a. a\<lparr>recordingsCount := 1\<rparr>)] synced_row)"
  using isSynced_staleness[of synced_row 100 "[(150, \<lambda>a. a\<lparr>recordingsCount := 1\<rparr>)]"]
  by (simp add: synced_row_def talk_row_def)

text \<open>
  C7. \<open>upload\<close> without \<open>force\<close> on an asset that has \<open>uploadedAt\<close> does nothing and
  makes no remote call. Otherwise there is exactly one blob-put, keyed by the content hash:
  when it reports success the call returns and \<open>uploadedAt\<close> is the current time; when it
  reports a failure or the transport fails, the call raises and the asset is unchanged, so
  that calling again makes the attempt again.
\<close>

theorem upload_outcomes:
  "(isUploaded a \<and> \<not> force \<longrightarrow> upload put env k tm force a = (Inr (), a, [])) \<and>
   (\<not> (isUploaded a \<and> \<not> force) \<longrightarrow>
      snd (snd (upload put env k tm force a)) = [Put (md5 a) (filePath env k a)] \<and>
      (case put (md5 a) (filePath env k a) of
         Inl err \<Rightarrow> upload put env k tm force a = (Inl err, a, [Put (md5 a) (filePath env k a)])
       | Inr res \<Rightarrow>
          if success res
          then fst (upload put env k tm force a) = Inr () \<and>
               uploadedAt (fst (snd (upload put env k tm force a))) = Some tm
          else fst (upload put env k tm force a) = Inl (Error (dataText res)) \<and>
               fst (snd (upload put env k tm force a)) = a))"
  by (simp add: upload_def update_def split: sum.splits)

theorem upload_outcomes_witness:
  "upload put_ok demo_settings Audio 300 False uploaded_row = (Inr (), uploaded_row, []) \<and>
   fst (upload put_ok demo_settings Audio 300 False talk_row) = Inr () \<and>
   uploadedAt (fst (snd (upload put_ok demo_settings Audio 300 False talk_row))) = Some 300 \<and>
   fst (upload put_refused demo_settings Audio 300 False talk_row) =
     Inl (Error ''quota exceeded'') \<and>
   fst (snd (upload put_refused demo_settings Audio 300 False talk_row)) = talk_row \<and>
   upload put_down demo_settings Audio 300 True uploaded_row =
     (Inl (Error ''ECONNRESET''), uploaded_row,
      [Put ''abc123'' ''/library/7/audios/abc123.mp3''])"
  using upload_outcomes[of uploaded_row False put_ok demo_settings Audio 300]
    upload_outcomes[of talk_row False put_ok demo_settings Audio 300]
    upload_outcomes[of talk_row False put_refused demo_settings Audio 300]
    upload_outcomes[of uploaded_row True put_down demo_settings Audio 300]
  by (simp add: isUploaded_def uploaded_row_def talk_row_def put_ok_def put_refused_def
      put_down_def filePath_def join_def userDataPath_def dirName_def extname_def
      demo_settings_def)

section \<open>Properties of ingestion\<close>

lemma build_direct:
  "files lib p = Some bytes \<Longrightarrow>
   drop 1 (path_extname p) \<notin> set (formats env (other k)) \<Longrightarrow>
   drop 1 (path_extname p) \<in> set (formats env k) \<Longrightarrow>
   buildFromLocalFile env k p src lib = Some (ingest env k p bytes src lib)"
  by (subst buildFromLocalFile.simps) simp

lemma ingest_created:
  "ingest env k p bytes src lib = (Inr a, lib') \<Longrightarrow>
   md5 a = hashFile env bytes \<and>
   id' a = (if uuidv4 env \<noteq> [] then uuidv4 env
            else uuidv5 env (userId env @ ''/'' @ hashFile env bytes) uuid_URL) \<and>
   a \<in> set (table k lib')"
  by (auto simp: ingest_def save_def setupDefaultAttributes_def table_def table_update_def Let_def
      split: if_splits sum.splits prod.splits kind.splits)

lemma build_created:
  assumes "buildFromLocalFile env k p src lib = Some y"
  shows "createdFrom env lib p y"
proof (rule buildFromLocalFile.raw_induct
    [where P = "\<lambda>env k p src lib y. createdFrom env lib p y", OF _ assms], goal_cases)
  case (1 build env k p src lib y)
  show ?case
  proof (cases "files lib p")
    case None
    with 1(2) show ?thesis by (auto simp: createdFrom_def)
  next
    case (Some bytes)
    show ?thesis
    proof (cases "drop 1 (path_extname p) \<in> set (formats env (other k))")
      case True
      with Some 1(2) have "build env (other k) p src lib = Some y" by simp
      from 1(1)[OF this] show ?thesis .
    next
      case False
      show ?thesis
      proof (cases "drop 1 (path_extname p) \<in> set (formats env k)")
        case True
        with False Some 1(2) have y: "y = ingest env k p bytes src lib" by simp
        show ?thesis
        proof (cases "fst y")
          case (Inl e)
          then show ?thesis by (simp add: createdFrom_def)
        next
          case (Inr a)
          with y have "ingest env k p bytes src lib = (Inr a, snd y)"
            by (metis prod.collapse)
          from ingest_created[OF this] Some Inr show ?thesis
            by (cases k) (auto simp: createdFrom_def table_def)
        qed
      next
        case nope: False
        with False Some 1(2) show ?thesis by (auto simp: createdFrom_def)
      qed
    qed
  qed
qed

lemma created_row:
  assumes "buildFromLocalFile env k p src lib = Some (Inr a, lib')"
  shows "\<exists>bytes. files lib p = Some bytes \<and> md5 a = hashFile env bytes \<and>
           id' a = (if uuidv4 env \<noteq> [] then uuidv4 env
                    else uuidv5 env (userId env @ ''/'' @ hashFile env bytes) uuid_URL) \<and>
           a \<in> set (audios lib' @ videos lib')"
  using build_created[OF assms] by (auto simp: createdFrom_def split: option.splits)

text \<open>
  C5 at the import of \<open>talk.mp3\<close> by user 7. \<open>build\<close> has filled the primary key
  with its \<open>UUIDV4\<close> default before the hook runs, so the hook's assignment of the
  version-5 UUID of \<open>7/abc123\<close> is ignored: the created row keeps the random id, which
  is not the derived one. The same user importing the same bytes into another library gets
  another id.
\<close>

theorem created_asset_keeps_default_id:
  "buildFromLocalFile earlier_ingest Audio ''/home/u/talk.mp3'' (Some ''/home/u/talk.mp3'')
     talk_lib = Some (Inr talk_row, lib_once) \<and>
   md5 talk_row = hashFile earlier_ingest ''ID3 talk'' \<and>
   id' talk_row = uuidv4 earlier_ingest \<and>
   id' talk_row \<noteq> uuidv5 earlier_ingest (userId earlier_ingest @ ''/'' @ md5 talk_row) uuid_URL \<and>
   buildFromLocalFile demo_ingest Video ''/media/usb/lecture.mp3'' None copy_lib =
     Some (Inr (talk_row\<lparr>source := None, id' := uuidv4 demo_ingest\<rparr>), copy_once) \<and>
   userId demo_ingest = userId earlier_ingest \<and>
   uuidv4 demo_ingest \<noteq> id' talk_row"
proof -
  have run1: "buildFromLocalFile earlier_ingest Audio ''/home/u/talk.mp3''
      (Some ''/home/u/talk.mp3'') talk_lib = Some (Inr talk_row, lib_once)"
    by (simp add: build_direct[where bytes = "''ID3 talk''"] talk_lib_def earlier_ingest_def
        demo_ingest_def formats_def other_def path_extname_def basename_def ingest_def save_def
        setupDefaultAttributes_def table_def table_update_def join_def userDataPath_def
        dirName_def Let_def talk_row_def lib_once_def)
  have route: "buildFromLocalFile demo_ingest Video ''/media/usb/lecture.mp3'' None copy_lib =
      buildFromLocalFile demo_ingest Audio ''/media/usb/lecture.mp3'' None copy_lib"
    by (subst buildFromLocalFile.simps)
      (simp add: copy_lib_def demo_ingest_def formats_def other_def path_extname_def
        basename_def)
  have run2: "buildFromLocalFile demo_ingest Video ''/media/usb/lecture.mp3'' None copy_lib =
      Some (Inr (talk_row\<lparr>source := None, id' := uuidv4 demo_ingest\<rparr>), copy_once)"
    unfolding route
    by (simp add: build_direct[where bytes = "''ID3 talk''"] copy_lib_def demo_ingest_def
        formats_def other_def path_extname_def basename_def ingest_def save_def
        setupDefaultAttributes_def table_def table_update_def join_def userDataPath_def
        dirName_def Let_def talk_row_def copy_once_def)
  from run1 run2 show ?thesis
    by (simp add: talk_row_def earlier_ingest_def demo_ingest_def)
qed

lemma duplicate_ingest_general:
  assumes "files lib p = Some bytes"
    and "drop 1 (path_extname p) \<notin> set (formats env (other k))"
    and "drop 1 (path_extname p) \<in> set (formats env k)"
    and "\<not> copyFails env"
    and "p \<noteq> join (join (userDataPath env) (dirName k)) (hashFile env bytes @ path_extname p)"
    and "hashFile env bytes \<in> set (map md5 (table k lib))"
  shows "buildFromLocalFile env k p src lib =
     Some (Inl UniqueConstraintError,
           lib\<lparr>files := (files lib)
             (join (join (userDataPath env) (dirName k)) (hashFile env bytes @ path_extname p) := None)\<rparr>)"
  using assms
  by (cases k) (simp_all add: build_direct[where bytes = bytes] ingest_def save_def
      setupDefaultAttributes_def table_def Let_def)

text \<open>
  C4 at a library that already holds \<open>talk.mp3\<close>: ingesting the same file again fails on
  the unique constraint and adds no row, but the \<open>catch\<close> that removes "the copied
  file" removes the file at the hash-derived path, which is the backing file of the row
  that exists. After the failed ingestion that file is gone.
\<close>

theorem duplicate_ingest_removes_library_file:
  "buildFromLocalFile demo_ingest Audio ''/home/u/talk.mp3'' (Some ''/home/u/talk.mp3'') lib_once =
     Some (Inl UniqueConstraintError, lib_twice) \<and>
   audios lib_twice = [talk_row] \<and>
   filePath demo_ingest Audio talk_row = ''/library/7/audios/abc123.mp3'' \<and>
   files lib_once ''/library/7/audios/abc123.mp3'' = Some ''ID3 talk'' \<and>
   files lib_twice ''/library/7/audios/abc123.mp3'' = None"
  by (simp add: build_direct[where bytes = "''ID3 talk''"] talk_lib_def demo_ingest_def
        formats_def other_def path_extname_def basename_def ingest_def save_def
        setupDefaultAttributes_def table_def table_update_def join_def userDataPath_def
        dirName_def Let_def talk_row_def lib_once_def lib_twice_def filePath_def extname_def)


section \<open>Properties of the recording counters\<close>

lemma find_bump:
  "find (\<lambda>x. id' x = i) rows = Some a \<Longrightarrow>
   find (\<lambda>x. id' x = i) (bump i n dur rows) =
     Some (a\<lparr>recordingsCount := recordingsCount a + n,
             recordingsDuration := recordingsDuration a + dur\<rparr>)"
  by (induction rows) (auto simp: bump_def)

lemma find_id: "find (\<lambda>x. id' x = i) rows = Some a \<Longrightarrow> id' a = i"
  by (induction rows) (auto split: if_splits)

lemma audio_recording_counted:
  assumes "targetType r = ''Audio''" and "findByPk (audios d) (targetId r) = Some a"
  shows "findByPk (audios (createRecording r d)) (targetId r) =
           Some (a\<lparr>recordingsCount := recordingsCount a + 1,
                   recordingsDuration := recordingsDuration a + duration r\<rparr>) \<and>
         findByPk (audios (destroyRecording r (createRecording r d))) (targetId r) = Some a"
proof -
  from assms(2) have ida: "id' a = targetId r" by (auto simp: findByPk_def dest: find_id)
  let ?a' = "a\<lparr>recordingsCount := recordingsCount a + 1,
               recordingsDuration := recordingsDuration a + duration r\<rparr>"
  from assms ida have inc: "findByPk (audios (createRecording r d)) (targetId r) = Some ?a'"
    by (simp add: createRecording_def increaseResourceCache_def findByPk_def find_bump)
  from inc assms(1) ida
  have "findByPk (audios (destroyRecording r (createRecording r d))) (targetId r) = Some a"
    using find_bump[of "targetId r" "audios (createRecording r d)" ?a' "-1" "- duration r"]
    by (simp add: destroyRecording_def decreaseResourceCache_def findByPk_def)
  with inc show ?thesis by simp
qed

lemma other_target_not_counted:
  "targetType r \<noteq> ''Audio'' \<Longrightarrow>
   audios (createRecording r d) = audios d \<and> videos (createRecording r d) = videos d \<and>
   audios (destroyRecording r d) = audios d \<and> videos (destroyRecording r d) = videos d"
  by (simp add: createRecording_def destroyRecording_def increaseResourceCache_def
      decreaseResourceCache_def)


text \<open>
  C8 at a Recording whose target is a Video: the hook returns at once because the target
  type is not "Audio", and the video's counters stay at zero although the video now has one
  live Recording row. The Audio branch above does keep its counters.
\<close>

theorem video_recording_not_counted:
  "liveRecordings Video ''v1'' (createRecording video_clip video_db) = [video_clip] \<and>
   map recordingsCount (videos (createRecording video_clip video_db)) = [0] \<and>
   map recordingsDuration (videos (createRecording video_clip video_db)) = [0]"
  by (simp add: createRecording_def increaseResourceCache_def liveRecordings_def video_clip_def
      video_db_def lecture_video_def modelName_def)


section \<open>Properties of the downloader\<close>

lemma fold_preserves:
  "(\<And>x s. P s \<Longrightarrow> P (f x s)) \<Longrightarrow> P s \<Longrightarrow> P (fold f xs s)"
  by (induction xs arbitrary: s) auto

lemma unrejected_listeners: "listeners d' = listeners d \<Longrightarrow> unrejected d' = unrejected d"
  by (simp add: unrejected_def)

lemma resolve_unrejected: "unrejected d \<Longrightarrow> unrejected (resolve l v d)"
  by (auto simp: unrejected_def resolve_def list_all_length nth_list_update)

lemma onWillDownload_unrejected: "unrejected d \<Longrightarrow> unrejected (onWillDownload i l d)"
  by (auto simp: unrejected_def onWillDownload_def Let_def split: option.splits)

lemma onUpdated_unrejected: "unrejected d \<Longrightarrow> unrejected (onUpdated st l d)"
  by (simp add: onUpdated_def resolve_unrejected)

lemma onDone_unrejected: "unrejected d \<Longrightarrow> unrejected (onDone i st l d)"
proof (cases "items d i")
  case None
  then show "unrejected d \<Longrightarrow> ?thesis" by (simp add: onDone_def)
next
  case (Some it)
  assume u: "unrejected d"
  then have "unrejected (d\<lparr>disk := (disk d)(savePath it := None)\<rparr>)"
    by (simp add: unrejected_def)
  with u Some show ?thesis
    by (simp add: onDone_def resolve_unrejected)
qed

lemma willDownload_unrejected:
  assumes "unrejected d"
  shows "unrejected (willDownload i fname d)"
proof -
  from assms have "unrejected (d\<lparr>items := (items d)(i \<mapsto> \<lparr>filename = fname, savePath = [],
      itemState = Progressing, ended = False, subscribers = []\<rparr>)\<rparr>)"
    by (simp add: unrejected_def)
  then show ?thesis
    unfolding willDownload_def
    by (rule fold_preserves[where P = unrejected, rotated]) (rule onWillDownload_unrejected)
qed

lemma emitUpdated_unrejected: "unrejected d \<Longrightarrow> unrejected (emitUpdated i st d)"
proof (cases "items d i")
  case None
  then show "unrejected d \<Longrightarrow> ?thesis" by (simp add: emitUpdated_def)
next
  case (Some it)
  assume u: "unrejected d"
  then have "unrejected (d\<lparr>items := (items d)(i \<mapsto> it\<lparr>itemState := st\<rparr>)\<rparr>)"
    by (simp add: unrejected_def)
  then have "unrejected (fold (onUpdated st) (subscribers it)
      (d\<lparr>items := (items d)(i \<mapsto> it\<lparr>itemState := st\<rparr>)\<rparr>))"
    by (rule fold_preserves[where P = unrejected, rotated]) (rule onUpdated_unrejected)
  with u Some show ?thesis by (simp add: emitUpdated_def)
qed

lemma emitDone_unrejected: "unrejected d \<Longrightarrow> unrejected (emitDone i st d)"
proof (cases "items d i")
  case None
  then show "unrejected d \<Longrightarrow> ?thesis" by (simp add: emitDone_def)
next
  case (Some it)
  assume u: "unrejected d"
  then have "unrejected (d\<lparr>items := (items d)(i \<mapsto> it\<lparr>itemState := st, ended := True\<rparr>)\<rparr>)"
    by (simp add: unrejected_def)
  then have "unrejected (fold (onDone i st) (subscribers it)
      (d\<lparr>items := (items d)(i \<mapsto> it\<lparr>itemState := st, ended := True\<rparr>)\<rparr>))"
    by (rule fold_preserves[where P = unrejected, rotated]) (rule onDone_unrejected)
  with u Some show ?thesis by (simp add: emitDone_def)
qed

lemma cancelAll_unrejected: "unrejected d \<Longrightarrow> unrejected (cancelAll d)"
  unfolding cancelAll_def itemCancel_def
  by (rule fold_preserves[where P = unrejected]) (auto intro: emitDone_unrejected)

lemma cancel_unrejected: "unrejected d \<Longrightarrow> unrejected (cancel fname d)"
  by (simp add: cancel_def itemCancel_def emitDone_unrejected split: option.splits)

lemma writeChunk_unrejected: "unrejected d \<Longrightarrow> unrejected (writeChunk i bytes d)"
  by (simp add: writeChunk_def unrejected_def split: option.splits)

lemma download_unrejected: "unrejected d \<Longrightarrow> unrejected (snd (download url sp d))"
  by (simp add: download_def unrejected_def)

lemma step_unrejected: "unrejected d \<Longrightarrow> unrejected (step e d)"
  by (cases e)
    (simp_all add: download_unrejected willDownload_unrejected writeChunk_unrejected
      emitUpdated_unrejected emitDone_unrejected cancel_unrejected cancelAll_unrejected)

lemma run_unrejected: "unrejected d \<Longrightarrow> unrejected (run es d)"
  unfolding run_def
  by (rule fold_preserves[where P = unrejected]) (auto intro: step_unrejected)


lemma resolve_items: "items (resolve l v d) = items d" and resolve_disk: "disk (resolve l v d) = disk d"
  by (simp_all add: resolve_def)

lemma onDone_items: "items (onDone i st l d) = items d"
  by (simp add: onDone_def resolve_items split: option.splits)

lemma onDone_disk:
  "items d i = Some it \<Longrightarrow> st \<noteq> Completed \<Longrightarrow>
   disk (onDone i st l d) = (disk d)(savePath it := None)"
  by (simp add: onDone_def resolve_disk)

lemma fold_onDone_disk:
  "items d i = Some it \<Longrightarrow> st \<noteq> Completed \<Longrightarrow>
   disk (fold (onDone i st) ls d) = (if ls = [] then disk d else (disk d)(savePath it := None))"
proof (induction ls arbitrary: d)
  case Nil
  then show ?case by simp
next
  case (Cons l ls)
  from Cons.prems have "items (onDone i st l d) i = Some it" by (simp add: onDone_items)
  from Cons.IH[OF this Cons.prems(2)] Cons.prems show ?case
    by (auto simp: onDone_disk)
qed

lemma done_removes_file:
  assumes "items d i = Some it" and "\<not> ended it" and "subscribers it \<noteq> []"
    and "st \<noteq> Completed"
  shows "disk (emitDone i st d) (savePath it) = None"
  using assms
    fold_onDone_disk[of "d\<lparr>items := (items d)(i \<mapsto> it\<lparr>itemState := st, ended := True\<rparr>)\<rparr>"
      i "it\<lparr>itemState := st, ended := True\<rparr>" st "subscribers it"]
  by (simp add: emitDone_def)

lemma first_download:
  "willDownload 0 fname (snd (download url sp (newDownloader dir))) =
     \<lparr>tasks = [0],
      items = [0 \<mapsto> \<lparr>filename = fname, savePath = chosenPath dir sp fname,
                       itemState = Progressing, ended = False, subscribers = [0]\<rparr>],
      listeners = [\<lparr>optSavePath = sp, promise = Unsettled\<rparr>],
      disk = Map.empty, downloadsPath = dir\<rparr>"
  by (simp add: willDownload_def download_def newDownloader_def onWillDownload_def
      chosenPath_def Let_def split: option.splits)

lemma solo_first: "solo (chosenPath dir sp fname) (willDownload 0 fname (snd (download url sp (newDownloader dir))))"
  by (simp add: first_download solo_def)

lemma solo_step:
  assumes "solo path d" and "transferEvent e"
  shows "solo path (step e d) \<and>
         (promise (listeners (step e d) ! 0) = Unsettled \<longleftrightarrow>
            promise (listeners d ! 0) = Unsettled \<and> e \<noteq> Updated 0 Interrupted)"
proof (cases e)
  case (Chunk i bytes)
  with assms show ?thesis
    by (auto simp: solo_def writeChunk_def split: option.splits)
next
  case (Updated i st)
  with assms show ?thesis
    by (auto simp: solo_def emitUpdated_def onUpdated_def resolve_def split: option.splits)
qed (use assms in auto)

lemma solo_run:
  "solo path d \<Longrightarrow> list_all transferEvent es \<Longrightarrow>
   solo path (run es d) \<and>
   (promise (listeners (run es d) ! 0) = Unsettled \<longleftrightarrow>
      promise (listeners d ! 0) = Unsettled \<and> Updated 0 Interrupted \<notin> set es)"
proof (induction es arbitrary: d)
  case Nil
  then show ?case by (simp add: run_def)
next
  case (Cons e es)
  from Cons.prems have s: "solo path (step e d)"
    and u: "promise (listeners (step e d) ! 0) = Unsettled \<longleftrightarrow>
            promise (listeners d ! 0) = Unsettled \<and> e \<noteq> Updated 0 Interrupted"
    using solo_step[of path d e] by auto
  from Cons.IH[OF s] Cons.prems(2) u show ?case
    by (auto simp: run_def)
qed

lemma solo_done:
  assumes "solo path d"
  shows "promise (listeners (emitDone 0 st d) ! 0) =
           (if promise (listeners d ! 0) = Unsettled \<and> st = Completed
            then Resolved (Some path) else Resolved None) \<and>
         (st \<noteq> Completed \<longrightarrow> disk (emitDone 0 st d) path = None)"
  using assms
  by (auto simp: solo_def emitDone_def onDone_def resolve_def split: option.splits)

lemma solo_cancelAll: "solo path d \<Longrightarrow> cancelAll d = emitDone 0 Cancelled d"
  by (simp add: solo_def cancelAll_def itemCancel_def)

lemma isolated_download:
  assumes "list_all transferEvent es"
  shows "promise (listeners (run (Download url sp # WillDownload 0 fname # es @ [Done 0 st])
             (newDownloader dir)) ! 0) =
           (if st = Completed \<and> Updated 0 Interrupted \<notin> set es
            then Resolved (Some (chosenPath dir sp fname)) else Resolved None) \<and>
         (st \<noteq> Completed \<longrightarrow>
            disk (run (Download url sp # WillDownload 0 fname # es @ [Done 0 st])
              (newDownloader dir)) (chosenPath dir sp fname) = None)"
proof -
  let ?d1 = "willDownload 0 fname (snd (download url sp (newDownloader dir)))"
  have split: "run (Download url sp # WillDownload 0 fname # es @ [Done 0 st]) (newDownloader dir) =
      emitDone 0 st (run es ?d1)"
    by (simp add: run_def)
  have "promise (listeners ?d1 ! 0) = Unsettled" by (simp add: first_download)
  with solo_run[OF solo_first assms, of dir sp fname url]
  have s: "solo (chosenPath dir sp fname) (run es ?d1)"
    and u: "promise (listeners (run es ?d1) ! 0) = Unsettled \<longleftrightarrow> Updated 0 Interrupted \<notin> set es"
    by auto
  from solo_done[OF s, of st] u show ?thesis
    unfolding split by auto
qed


text \<open>
  C9 at two overlapping downloads. The listener of the first call is still registered on
  the session when the second item arrives, so it subscribes to that item too; when the
  second transfer completes, its handler resolves the first call's promise with the second
  file's path. The first transfer is then cancelled: its partial file is removed, but the
  promise of the first download stays resolved to a path and not to "no file".
\<close>

theorem cancelled_download_resolved_with_other_path:
  "map_option itemState (items (run overlap_cancel (newDownloader ''/dl'')) 0) = Some Cancelled \<and>
   disk (run overlap_cancel (newDownloader ''/dl'')) ''/dl/a.mp3'' = None \<and>
   promise (listeners (run overlap_cancel (newDownloader ''/dl'')) ! 0) =
     Resolved (Some ''/dl/b.mp3'')"
  by (simp add: overlap_cancel_def run_def newDownloader_def download_def willDownload_def
      onWillDownload_def writeChunk_def emitDone_def onDone_def resolve_def cancel_def
      named_def itemCancel_def join_def upt_rec)

text \<open>
  C10 at two overlapping downloads. The second transfer ends interrupted, and its handler,
  subscribed by the first call's listener as well, resolves the first call's promise with
  \<open>undefined\<close>. The first transfer then completes and its file is on disk, but its
  promise stays \<open>undefined\<close>: the caller sees a failed download. No promise is ever
  rejected, as \<open>run_unrejected\<close> shows for every run.
\<close>

theorem completed_download_resolved_undefined:
  "map_option itemState (items (run overlap_complete (newDownloader ''/dl'')) 0) = Some Completed \<and>
   disk (run overlap_complete (newDownloader ''/dl'')) ''/dl/a.mp3'' = Some ''aaaa'' \<and>
   promise (listeners (run overlap_complete (newDownloader ''/dl'')) ! 0) = Resolved None"
  by (simp add: overlap_complete_def run_def newDownloader_def download_def willDownload_def
      onWillDownload_def writeChunk_def emitDone_def onDone_def resolve_def join_def upt_rec)
end
